theory Spec2Isabelle
  imports Main "HOL-Library.Multiset"
begin

section \<open>The player manager of playerctl (playerctl-player-manager.c)\<close>

text \<open>
  A shallow embedding of \<^verbatim>\<open>src/playerctl/playerctl-player-manager.c\<close>.
  Pointers are addresses (\<open>gpointer\<close>, a natural number, \<open>NULL\<close> being 0), so that
  two player handles are compared by identity exactly as the C code compares them.
  A \<^verbatim>\<open>GList\<close> is a HOL list of its \<^verbatim>\<open>data\<close> fields and a link of a list is
  the position of the node together with its data.  C strings are \<open>string\<close>s and a
  nullable \<^verbatim>\<open>gchar *\<close> is a \<open>string option\<close>.  Everything the code does besides
  changing the private structure (emitting a signal, taking or dropping a reference,
  connecting a handler, logging a warning) is recorded in the state, in the order in
  which it happens.
\<close>

subsection \<open>Values\<close>

type_synonym gpointer = nat

abbreviation NULL :: gpointer where
  "NULL \<equiv> 0"

type_synonym GError = string

text \<open>A comparison function of type \<^verbatim>\<open>GCompareDataFunc\<close>; the pointer may be \<open>NULL\<close>.\<close>

type_synonym GCompareDataFunc = "(gpointer \<Rightarrow> gpointer \<Rightarrow> gpointer \<Rightarrow> int) option"

text \<open>
  Calling through a \<open>NULL\<close> function pointer does not return: the only way the
  operations of this file can fail to complete.
\<close>

datatype crash = NullFunctionCall

text \<open>The \<^verbatim>\<open>GVariant\<close> values a bus signal can carry, as far as the callback tells them apart.\<close>

datatype GVariant =
    GVString string
  | GVBoolean bool
  | GVInt32 int
  | GVTuple "GVariant list"

text \<open>
  Modelled from the spec: \<^verbatim>\<open>struct PlayerctlNameEvent\<close> is declared in
  \<^verbatim>\<open>playerctl-player-manager.h\<close>, which is not among the sources.  The name event of
  the specification carries the service identifier and nothing else, and the code of
  this file writes and reads the field \<^verbatim>\<open>name\<close> only (\<open>event_name\<close> here).
\<close>

datatype PlayerctlNameEvent = PlayerctlNameEvent (event_name: string)

text \<open>The four signals of the class, with the argument they are emitted with.\<close>

datatype signal =
    NAME_APPEARED PlayerctlNameEvent
  | NAME_VANISHED PlayerctlNameEvent
  | PLAYER_APPEARED gpointer
  | PLAYER_VANISHED gpointer

text \<open>
  Signal handlers run synchronously inside \<^verbatim>\<open>g_signal_emit\<close>: an emission is recorded
  with the two lists of the manager as the handlers find them at that moment.
\<close>

type_synonym emission = "signal \<times> string list \<times> gpointer list"

text \<open>
  The first eight fields are \<^verbatim>\<open>struct _PlayerctlPlayerManagerPrivate\<close>.  The others
  record the effects on the outside: the signals emitted on the manager so far, the
  reference count of every object, the proxies whose \<^verbatim>\<open>g-signal\<close> is connected to the
  callback, the warnings logged, and the calls of a \<^verbatim>\<open>GDestroyNotify\<close> (function and
  argument).
\<close>

record manager =
  initted :: bool
  init_error :: "GError option"
  proxy :: gpointer
  player_names :: "string list"
  players :: "gpointer list"
  sort_func :: GCompareDataFunc
  sort_data :: gpointer
  sort_notify :: gpointer
  emitted :: "emission list"
  ref_count :: "gpointer \<Rightarrow> int"
  connected :: "gpointer list"
  warnings :: "string list"
  notify_calls :: "(gpointer \<times> gpointer) list"

subsection \<open>The C library and GLib functions the file calls\<close>

text \<open>\<^verbatim>\<open>strcmp\<close> compares byte by byte; only the sign of its result is specified.\<close>

fun strcmp :: "string \<Rightarrow> string \<Rightarrow> int" where
  "strcmp [] [] = 0"
| "strcmp [] (y # ys) = - 1"
| "strcmp (x # xs) [] = 1"
| "strcmp (x # xs) (y # ys) =
     (if x = y then strcmp xs ys
      else if (of_char x :: nat) < of_char y then - 1 else 1)"

text \<open>\<^verbatim>\<open>g_strcmp0\<close>: \<^verbatim>\<open>strcmp\<close> that accepts \<open>NULL\<close>, which sorts before every string.\<close>

definition g_strcmp0 :: "string option \<Rightarrow> string option \<Rightarrow> int" where
  "g_strcmp0 str1 str2 =
     (case str1 of
        None \<Rightarrow> - (if str1 \<noteq> str2 then 1 else 0)
      | Some s1 \<Rightarrow>
          (case str2 of
             None \<Rightarrow> (if str1 \<noteq> str2 then 1 else 0)
           | Some s2 \<Rightarrow> strcmp s1 s2))"

text \<open>\<^verbatim>\<open>g_str_has_prefix\<close>: \<^verbatim>\<open>strncmp (str, prefix, strlen (prefix)) == 0\<close>.\<close>

definition g_str_has_prefix :: "string \<Rightarrow> string \<Rightarrow> bool" where
  "g_str_has_prefix str pre = (take (length pre) str = pre)"

text \<open>\<^verbatim>\<open>g_variant_get_type_string\<close>.\<close>

fun g_variant_get_type_string :: "GVariant \<Rightarrow> string" where
  "g_variant_get_type_string (GVString s) = ''s''"
| "g_variant_get_type_string (GVBoolean b) = ''b''"
| "g_variant_get_type_string (GVInt32 i) = ''i''"
| "g_variant_get_type_string (GVTuple vs) =
     ''('' @ concat (map g_variant_get_type_string vs) @ '')''"

definition g_variant_is_of_type :: "GVariant \<Rightarrow> string \<Rightarrow> bool" where
  "g_variant_is_of_type v ty = (g_variant_get_type_string v = ty)"

text \<open>
  The three \<^verbatim>\<open>g_variant_get_child_value\<close> / \<^verbatim>\<open>g_variant_get_string\<close> pairs of the
  callback: the three strings of a value of type \<^verbatim>\<open>(sss)\<close>.
\<close>

fun g_variant_get_sss :: "GVariant \<Rightarrow> (string \<times> string \<times> string) option" where
  "g_variant_get_sss (GVTuple [GVString a, GVString b, GVString c]) = Some (a, b, c)"
| "g_variant_get_sss v = None"

text \<open>
  \<^verbatim>\<open>g_list_find_custom\<close>: the first link whose data \<open>func\<close> maps to 0 against
  \<open>data\<close>, or \<open>NULL\<close>.
\<close>

fun g_list_find_custom :: "'a list \<Rightarrow> 'b \<Rightarrow> ('a \<Rightarrow> 'b \<Rightarrow> int) \<Rightarrow> (nat \<times> 'a) option" where
  "g_list_find_custom [] data func = None"
| "g_list_find_custom (x # xs) data func =
     (if func x data = 0 then Some (0, x)
      else map_option (\<lambda>(i, y). (Suc i, y)) (g_list_find_custom xs data func))"

text \<open>\<^verbatim>\<open>g_list_remove_link\<close>: the list without the node at the link's position.\<close>

definition g_list_remove_link :: "'a list \<Rightarrow> nat \<Rightarrow> 'a list" where
  "g_list_remove_link list i = take i list @ drop (Suc i) list"

definition g_list_prepend :: "'a list \<Rightarrow> 'a \<Rightarrow> 'a list" where
  "g_list_prepend list data = data # list"

definition g_list_concat :: "'a list \<Rightarrow> 'a list \<Rightarrow> 'a list" where
  "g_list_concat list1 list2 = list1 @ list2"

text \<open>
  \<^verbatim>\<open>g_list_insert_sorted_with_data\<close>: returns the list unchanged when \<open>func\<close> is
  \<open>NULL\<close> (a \<^verbatim>\<open>g_return_val_if_fail\<close>); otherwise walks while \<open>func data x > 0\<close>
  and links the new node before the first node where it is not, or after the last.
\<close>

fun g_list_insert_sorted_real ::
  "'a list \<Rightarrow> 'a \<Rightarrow> ('a \<Rightarrow> 'a \<Rightarrow> gpointer \<Rightarrow> int) \<Rightarrow> gpointer \<Rightarrow> 'a list" where
  "g_list_insert_sorted_real [] data func user_data = [data]"
| "g_list_insert_sorted_real (x # xs) data func user_data =
     (if func data x user_data > 0
      then x # g_list_insert_sorted_real xs data func user_data
      else data # x # xs)"

definition g_list_insert_sorted_with_data ::
  "gpointer list \<Rightarrow> gpointer \<Rightarrow> GCompareDataFunc \<Rightarrow> gpointer \<Rightarrow> gpointer list" where
  "g_list_insert_sorted_with_data list data func user_data =
     (case func of
        None \<Rightarrow> list
      | Some f \<Rightarrow> g_list_insert_sorted_real list data f user_data)"

text \<open>
  \<^verbatim>\<open>g_list_sort_with_data\<close> is a merge sort.  \<^verbatim>\<open>g_list_sort_merge\<close> calls
  \<open>compare_func\<close> while both lists have a node and takes the node of the first list
  when the result is \<open>\<le> 0\<close>; it does not check that \<open>compare_func\<close> is not \<open>NULL\<close>.
\<close>

fun g_list_sort_merge ::
  "gpointer list \<Rightarrow> gpointer list \<Rightarrow> GCompareDataFunc \<Rightarrow> gpointer \<Rightarrow> crash + gpointer list" where
  "g_list_sort_merge [] l2 compare_func user_data = Inr l2"
| "g_list_sort_merge (x # xs) [] compare_func user_data = Inr (x # xs)"
| "g_list_sort_merge (x # xs) (y # ys) compare_func user_data =
     (case compare_func of
        None \<Rightarrow> Inl NullFunctionCall
      | Some f \<Rightarrow>
          (if f x y user_data \<le> 0
           then (case g_list_sort_merge xs (y # ys) compare_func user_data of
                   Inl e \<Rightarrow> Inl e
                 | Inr l \<Rightarrow> Inr (x # l))
           else (case g_list_sort_merge (x # xs) ys compare_func user_data of
                   Inl e \<Rightarrow> Inl e
                 | Inr l \<Rightarrow> Inr (y # l))))"

text \<open>
  \<^verbatim>\<open>g_list_sort_real\<close>: a list of at most one node is returned as it is; a longer one
  is cut after its first \<open>length div 2\<close> nodes (the two-pointer walk of the C code),
  both halves are sorted and the results merged.
\<close>

function g_list_sort_real ::
  "gpointer list \<Rightarrow> GCompareDataFunc \<Rightarrow> gpointer \<Rightarrow> crash + gpointer list" where
  "g_list_sort_real list compare_func user_data =
     (if list = [] then Inr []
      else if tl list = [] then Inr list
      else
        (case g_list_sort_real (take (length list div 2) list) compare_func user_data of
           Inl e \<Rightarrow> Inl e
         | Inr s1 \<Rightarrow>
             (case g_list_sort_real (drop (length list div 2) list) compare_func user_data of
                Inl e \<Rightarrow> Inl e
              | Inr s2 \<Rightarrow> g_list_sort_merge s1 s2 compare_func user_data)))"
  by pat_completeness auto
termination
proof (relation "measure (\<lambda>(list, compare_func, user_data). length list)")
  show "wf (measure (\<lambda>(list, compare_func, user_data). length list))"
    by simp
next
  fix list :: "gpointer list" and compare_func :: GCompareDataFunc and user_data :: gpointer
  assume "list \<noteq> []" and "tl list \<noteq> []"
  then have "2 \<le> length list"
    by (cases list) (auto simp: Suc_le_eq)
  then show "((take (length list div 2) list, compare_func, user_data),
              (list, compare_func, user_data))
             \<in> measure (\<lambda>(list, compare_func, user_data). length list)"
    by simp
next
  fix list :: "gpointer list" and compare_func :: GCompareDataFunc and user_data :: gpointer
    and x2 :: "gpointer list"
  assume "list \<noteq> []" and "tl list \<noteq> []"
  then have "2 \<le> length list"
    by (cases list) (auto simp: Suc_le_eq)
  then show "((drop (length list div 2) list, compare_func, user_data),
              (list, compare_func, user_data))
             \<in> measure (\<lambda>(list, compare_func, user_data). length list)"
    by simp
qed

definition g_list_sort_with_data ::
  "gpointer list \<Rightarrow> GCompareDataFunc \<Rightarrow> gpointer \<Rightarrow> crash + gpointer list" where
  "g_list_sort_with_data list compare_func user_data =
     g_list_sort_real list compare_func user_data"

subsection \<open>GObject effects\<close>

definition g_signal_emit :: "manager \<Rightarrow> signal \<Rightarrow> manager" where
  "g_signal_emit m s = m\<lparr>emitted := emitted m @ [(s, player_names m, players m)]\<rparr>"

definition g_object_ref :: "manager \<Rightarrow> gpointer \<Rightarrow> manager" where
  "g_object_ref m obj = m\<lparr>ref_count := (ref_count m)(obj := ref_count m obj + 1)\<rparr>"

definition g_object_unref :: "manager \<Rightarrow> gpointer \<Rightarrow> manager" where
  "g_object_unref m obj = m\<lparr>ref_count := (ref_count m)(obj := ref_count m obj - 1)\<rparr>"

definition g_warning :: "manager \<Rightarrow> string \<Rightarrow> manager" where
  "g_warning m msg = m\<lparr>warnings := warnings m @ [msg]\<rparr>"

subsection \<open>The property getter\<close>

datatype property_id = PROP_0 | PROP_PLAYERS | PROP_PLAYER_NAMES | N_PROPERTIES

datatype property_value = Players "gpointer list" | PlayerNames "string list"

text \<open>
  \<^verbatim>\<open>playerctl_player_manager_get_property\<close>: the value written to \<open>value\<close> (\<open>None\<close>
  when nothing is written) and the manager, which only the warning about an invalid
  property id changes.
\<close>

definition playerctl_player_manager_get_property ::
  "manager \<Rightarrow> property_id \<Rightarrow> property_value option \<times> manager" where
  "playerctl_player_manager_get_property m pid =
     (case pid of
        PROP_PLAYERS \<Rightarrow> (Some (Players (players m)), m)
      | PROP_PLAYER_NAMES \<Rightarrow> (Some (PlayerNames (player_names m)), m)
      | _ \<Rightarrow> (None, g_warning m ''invalid property id''))"

subsection \<open>Ownership-change notifications\<close>

text \<open>
  \<^verbatim>\<open>player_id_from_bus_name\<close>.  The macro \<^verbatim>\<open>MPRIS_PREFIX\<close> is defined in a header
  outside this file; it is the parameter \<open>MPRIS_PREFIX\<close> of the functions that use it.
\<close>

definition player_id_from_bus_name :: "string \<Rightarrow> string option \<Rightarrow> string option" where
  "player_id_from_bus_name MPRIS_PREFIX bus_name =
     (let prefix_len = length MPRIS_PREFIX in
      case bus_name of
        None \<Rightarrow> None
      | Some b \<Rightarrow>
          (if \<not> g_str_has_prefix b MPRIS_PREFIX \<or> length b \<le> prefix_len then None
           else Some (drop prefix_len b)))"

text \<open>
  The loop of \<^verbatim>\<open>manager_remove_managed_player_by_name\<close>: \<open>l\<close> is the rest of the
  list from the current node on and \<open>i\<close> the position of that node.  The property
  \<^verbatim>\<open>player-id\<close> of a player belongs to the player class: \<open>player_id_of\<close> is what
  \<^verbatim>\<open>g_object_get\<close> stores in \<open>id\<close> (\<open>None\<close> for \<open>NULL\<close>).
\<close>

fun manager_remove_managed_player_loop ::
  "(gpointer \<Rightarrow> string option) \<Rightarrow> string \<Rightarrow> gpointer list \<Rightarrow> nat \<Rightarrow> manager \<Rightarrow> manager" where
  "manager_remove_managed_player_loop player_id_of player_name [] i m = m"
| "manager_remove_managed_player_loop player_id_of player_name (player # l) i m =
     (if g_strcmp0 (player_id_of player) (Some player_name) = 0
      then
        g_object_unref
          (g_signal_emit
             (m\<lparr>players := g_list_remove_link (players m) i\<rparr>)
             (PLAYER_VANISHED player))
          player
      else manager_remove_managed_player_loop player_id_of player_name l (Suc i) m)"

definition manager_remove_managed_player_by_name ::
  "(gpointer \<Rightarrow> string option) \<Rightarrow> manager \<Rightarrow> string \<Rightarrow> manager" where
  "manager_remove_managed_player_by_name player_id_of m player_name =
     manager_remove_managed_player_loop player_id_of player_name (players m) 0 m"

text \<open>
  \<^verbatim>\<open>dbus_name_owner_changed_callback\<close>.  The arguments \<open>proxy\<close> and \<open>sender_name\<close>
  are not used by the code; \<open>data\<close> is the manager.
\<close>

definition dbus_name_owner_changed_callback ::
  "string \<Rightarrow> (gpointer \<Rightarrow> string option) \<Rightarrow> manager \<Rightarrow> string \<Rightarrow> GVariant \<Rightarrow> manager" where
  "dbus_name_owner_changed_callback MPRIS_PREFIX player_id_of m signal_name parameters =
     (if g_strcmp0 (Some signal_name) (Some ''NameOwnerChanged'') \<noteq> 0 then m
      else if \<not> g_variant_is_of_type parameters ''(sss)'' then
        g_warning m
          (''Got unknown parameters on org.freedesktop.DBus NameOwnerChange signal: '' @
           g_variant_get_type_string parameters)
      else
        (case g_variant_get_sss parameters of
           None \<Rightarrow> m
         | Some (name, previous_owner, new_owner) \<Rightarrow>
             (case player_id_from_bus_name MPRIS_PREFIX (Some name) of
                None \<Rightarrow> m
              | Some player_id \<Rightarrow>
                  (if length new_owner = 0 \<and> length previous_owner \<noteq> 0 then
                     (case g_list_find_custom (player_names m) player_id
                             (\<lambda>a b. g_strcmp0 (Some a) (Some b)) of
                        Some (i, entry_data) \<Rightarrow>
                          g_signal_emit
                            (manager_remove_managed_player_by_name player_id_of
                               (m\<lparr>player_names := g_list_remove_link (player_names m) i\<rparr>)
                               entry_data)
                            (NAME_VANISHED (PlayerctlNameEvent entry_data))
                      | None \<Rightarrow> m)
                   else if length previous_owner = 0 \<and> length new_owner \<noteq> 0 then
                     (case g_list_find_custom (player_names m) player_id
                             (\<lambda>a b. g_strcmp0 (Some a) (Some b)) of
                        None \<Rightarrow>
                          g_signal_emit
                            (m\<lparr>player_names := g_list_prepend (player_names m) player_id\<rparr>)
                            (NAME_APPEARED (PlayerctlNameEvent player_id))
                      | Some entry \<Rightarrow> m)
                   else m))))"

subsection \<open>Initialization\<close>

text \<open>
  \<^verbatim>\<open>playerctl_player_manager_initable_init\<close>.  The two calls that reach the bus are
  the parameters: \<open>proxy_new\<close> is what \<^verbatim>\<open>g_dbus_proxy_new_for_bus_sync\<close> returns and
  stores in \<open>tmp_error\<close>, \<open>list_players\<close> the same for \<^verbatim>\<open>playerctl_list_players\<close>.
  The result is the returned boolean, the error propagated to \<open>error\<close>, and the manager.
\<close>

definition playerctl_player_manager_initable_init ::
  "gpointer \<times> GError option \<Rightarrow> string list \<times> GError option \<Rightarrow> manager
     \<Rightarrow> bool \<times> GError option \<times> manager" where
  "playerctl_player_manager_initable_init proxy_new list_players m =
     (if initted m then (True, None, m)
      else
        (let m1 = m\<lparr>proxy := fst proxy_new\<rparr> in
         if snd proxy_new \<noteq> None then (False, snd proxy_new, m1)
         else
           (let m2 = m1\<lparr>player_names := fst list_players\<rparr> in
            if snd list_players \<noteq> None then (False, snd list_players, m2)
            else
              (let m3 = m2\<lparr>connected := connected m2 @ [proxy m2]\<rparr>;
                   m4 = m3\<lparr>initted := True\<rparr>
               in (True, None, m4)))))"

text \<open>
  \<^verbatim>\<open>playerctl_player_manager_constructed\<close>: initialization with the error stored in
  the \<open>init_error\<close> field.
\<close>

definition playerctl_player_manager_constructed ::
  "gpointer \<times> GError option \<Rightarrow> string list \<times> GError option \<Rightarrow> manager \<Rightarrow> manager" where
  "playerctl_player_manager_constructed proxy_new list_players m =
     (case playerctl_player_manager_initable_init proxy_new list_players m of
        (ok, err, m') \<Rightarrow>
          (case err of None \<Rightarrow> m' | Some e \<Rightarrow> m'\<lparr>init_error := Some e\<rparr>))"

subsection \<open>The public operations on the player collection\<close>

text \<open>\<^verbatim>\<open>playerctl_player_manager_set_sort_func\<close>.\<close>

definition playerctl_player_manager_set_sort_func ::
  "manager \<Rightarrow> GCompareDataFunc \<Rightarrow> gpointer \<Rightarrow> gpointer \<Rightarrow> crash + manager" where
  "playerctl_player_manager_set_sort_func m sort_func' sort_data' notify =
     (let m1 = m\<lparr>sort_func := sort_func', sort_data := sort_data', sort_notify := notify\<rparr> in
      case g_list_sort_with_data (players m1) sort_func' sort_data' of
        Inl e \<Rightarrow> Inl e
      | Inr l \<Rightarrow> Inr (m1\<lparr>players := l\<rparr>))"

text \<open>
  The loop of \<^verbatim>\<open>playerctl_player_manager_move_player_to_top\<close>, with \<open>l\<close> and \<open>i\<close> as
  in the removal loop.
\<close>

fun move_player_to_top_loop ::
  "gpointer \<Rightarrow> gpointer list \<Rightarrow> nat \<Rightarrow> manager \<Rightarrow> crash + manager" where
  "move_player_to_top_loop player [] i m = Inr m"
| "move_player_to_top_loop player (current # l) i m =
     (if current = player then
        (let m1 = m\<lparr>players := g_list_remove_link (players m) i\<rparr>;
             m2 = m1\<lparr>players := g_list_concat [current] (players m1)\<rparr>
         in
           if sort_func m2 \<noteq> None then
             (case g_list_sort_with_data (players m2) (sort_func m2) (sort_data m2) of
                Inl e \<Rightarrow> Inl e
              | Inr sorted_list \<Rightarrow> Inr (m2\<lparr>players := sorted_list\<rparr>))
           else Inr m2)
      else move_player_to_top_loop player l (Suc i) m)"

definition playerctl_player_manager_move_player_to_top ::
  "manager \<Rightarrow> gpointer \<Rightarrow> crash + manager" where
  "playerctl_player_manager_move_player_to_top m player =
     move_player_to_top_loop player (players m) 0 m"

text \<open>
  The loop of \<^verbatim>\<open>playerctl_player_manager_manage_player\<close>: \<open>True\<close> when it returns from
  the function because the player is already in the list.
\<close>

fun manage_player_loop :: "gpointer \<Rightarrow> gpointer list \<Rightarrow> bool" where
  "manage_player_loop player [] = False"
| "manage_player_loop player (current # l) =
     (if player = current then True else manage_player_loop player l)"

definition playerctl_player_manager_manage_player ::
  "manager \<Rightarrow> gpointer \<Rightarrow> crash + manager" where
  "playerctl_player_manager_manage_player m player =
     (if player = NULL then Inr m
      else if manage_player_loop player (players m) then Inr m
      else
        (let m1 =
               (if sort_func m \<noteq> None then
                  m\<lparr>players :=
                      g_list_insert_sorted_with_data (players m) player (sort_func m) (sort_data m)\<rparr>
                else m\<lparr>players := g_list_prepend (players m) player\<rparr>)
         in Inr (g_signal_emit (g_object_ref m1 player) (PLAYER_APPEARED player))))"

subsection \<open>Sequences of calls\<close>

datatype call =
    Notification string GVariant
  | ManagePlayer gpointer
  | MovePlayerToTop gpointer
  | SetSortFunc GCompareDataFunc gpointer gpointer

fun do_call ::
  "string \<Rightarrow> (gpointer \<Rightarrow> string option) \<Rightarrow> manager \<Rightarrow> call \<Rightarrow> crash + manager" where
  "do_call MPRIS_PREFIX player_id_of m (Notification signal_name parameters) =
     Inr (dbus_name_owner_changed_callback MPRIS_PREFIX player_id_of m signal_name parameters)"
| "do_call MPRIS_PREFIX player_id_of m (ManagePlayer player) =
     playerctl_player_manager_manage_player m player"
| "do_call MPRIS_PREFIX player_id_of m (MovePlayerToTop player) =
     playerctl_player_manager_move_player_to_top m player"
| "do_call MPRIS_PREFIX player_id_of m (SetSortFunc f d n) =
     playerctl_player_manager_set_sort_func m f d n"

text \<open>A sequence of calls stops at the first one that does not return.\<close>

fun do_calls ::
  "string \<Rightarrow> (gpointer \<Rightarrow> string option) \<Rightarrow> manager \<Rightarrow> call list \<Rightarrow> crash + manager" where
  "do_calls MPRIS_PREFIX player_id_of m [] = Inr m"
| "do_calls MPRIS_PREFIX player_id_of m (c # cs) =
     (case do_call MPRIS_PREFIX player_id_of m c of
        Inl e \<Rightarrow> Inl e
      | Inr m' \<Rightarrow> do_calls MPRIS_PREFIX player_id_of m' cs)"

subsection \<open>Example inputs\<close>

text \<open>
  The private structure as \<^verbatim>\<open>g_object_new\<close> leaves it (all fields zero), before any
  effect, every object holding one reference.
\<close>

definition new_manager :: manager where
  "new_manager =
     \<lparr>initted = False, init_error = None, proxy = NULL, player_names = [], players = [],
      sort_func = None, sort_data = NULL, sort_notify = NULL, emitted = [],
      ref_count = (\<lambda>obj. 1), connected = [], warnings = [], notify_calls = []\<rparr>"

text \<open>The bus name prefix of MPRIS players, as an example value of \<^verbatim>\<open>MPRIS_PREFIX\<close>.\<close>

definition mpris_prefix :: string where
  "mpris_prefix = ''org.mpris.MediaPlayer2.''"

text \<open>Three players, at the addresses 1, 2 and 3, and their \<^verbatim>\<open>player-id\<close> properties.\<close>

definition three_players :: "gpointer \<Rightarrow> string option" where
  "three_players p =
     (if p = 1 then Some ''spotify''
      else if p = 2 then Some ''vlc''
      else if p = 3 then Some ''mpv''
      else None)"

text \<open>A comparison function that orders players by a numeric priority.\<close>

definition by_priority :: "(gpointer \<Rightarrow> int) \<Rightarrow> gpointer \<Rightarrow> gpointer \<Rightarrow> gpointer \<Rightarrow> int" where
  "by_priority priority a b user_data = priority a - priority b"

section \<open>Properties of the library functions\<close>

lemma strcmp_eq_0_iff: "strcmp a b = 0 \<longleftrightarrow> a = b"
  by (induction a b rule: strcmp.induct) auto

lemma g_strcmp0_eq_0_iff: "g_strcmp0 a b = 0 \<longleftrightarrow> a = b"
  by (auto simp: g_strcmp0_def strcmp_eq_0_iff split: option.splits)

lemma type_string_not_Nil: "g_variant_get_type_string v \<noteq> []"
  by (cases v) auto

lemma type_string_s: "g_variant_get_type_string v = ''s'' \<longleftrightarrow> (\<exists>a. v = GVString a)"
  by (cases v) auto

lemma type_string_hd_s:
  "g_variant_get_type_string v = CHR ''s'' # r \<Longrightarrow> r = [] \<and> (\<exists>a. v = GVString a)"
  by (cases v) auto

lemma concat_type_strings_sss:
  "concat (map g_variant_get_type_string vs) = replicate n CHR ''s''
   \<Longrightarrow> length vs = n \<and> (\<forall>v \<in> set vs. \<exists>a. v = GVString a)"
proof (induction vs arbitrary: n)
  case Nil
  then show ?case by (cases n) auto
next
  case (Cons v vs)
  obtain c r where cr: "g_variant_get_type_string v = c # r"
    using type_string_not_Nil [of v] by (cases "g_variant_get_type_string v") auto
  with Cons.prems obtain k where n: "n = Suc k" and c: "c = CHR ''s''"
    and rest: "r @ concat (map g_variant_get_type_string vs) = replicate k CHR ''s''"
    by (cases n) auto
  from cr c type_string_hd_s [of v r] have r: "r = []" and v: "\<exists>a. v = GVString a"
    by auto
  from rest r Cons.IH [of k] show ?case
    using n v by auto
qed

lemma is_of_type_sss_iff:
  "g_variant_is_of_type v ''(sss)'' \<longleftrightarrow> (\<exists>a b c. v = GVTuple [GVString a, GVString b, GVString c])"
proof
  assume "g_variant_is_of_type v ''(sss)''"
  then have ts: "g_variant_get_type_string v = ''(sss)''"
    by (simp add: g_variant_is_of_type_def)
  then obtain vs where v: "v = GVTuple vs"
    by (cases v) auto
  with ts have "concat (map g_variant_get_type_string vs) = replicate 3 CHR ''s''"
    by (simp add: numeral_3_eq_3)
  then have "length vs = 3" and "\<forall>v \<in> set vs. \<exists>a. v = GVString a"
    using concat_type_strings_sss [of vs 3] by auto
  then obtain a b c where "vs = [GVString a, GVString b, GVString c]"
    by (cases vs; cases "tl vs"; cases "tl (tl vs)") (auto simp: numeral_3_eq_3)
  with v show "\<exists>a b c. v = GVTuple [GVString a, GVString b, GVString c]"
    by blast
next
  assume "\<exists>a b c. v = GVTuple [GVString a, GVString b, GVString c]"
  then show "g_variant_is_of_type v ''(sss)''"
    by (auto simp: g_variant_is_of_type_def)
qed

lemma find_custom_strings:
  "g_list_find_custom xs d (\<lambda>a b. g_strcmp0 (Some a) (Some b)) =
     (if d \<in> set xs then Some (length (takeWhile (\<lambda>x. x \<noteq> d) xs), d) else None)"
  by (induction xs) (auto simp: g_strcmp0_eq_0_iff)

lemma remove_link_takeWhile:
  "d \<in> set xs \<Longrightarrow> g_list_remove_link xs (length (takeWhile (\<lambda>x. x \<noteq> d) xs)) = remove1 d xs"
  by (induction xs) (auto simp: g_list_remove_link_def)

lemma manage_player_loop_iff: "manage_player_loop player l \<longleftrightarrow> player \<in> set l"
  by (induction l) auto

declare g_list_sort_real.simps [simp del]

lemma g_list_sort_merge_Some:
  "\<exists>l. g_list_sort_merge l1 l2 (Some f) d = Inr l \<and> mset l = mset l1 + mset l2"
  by (induction l1 l2 "Some f" d rule: g_list_sort_merge.induct) auto

lemma g_list_sort_real_Some:
  "\<exists>l. g_list_sort_real xs (Some f) d = Inr l \<and> mset l = mset xs"
proof (induction xs "Some f" d rule: g_list_sort_real.induct)
  case (1 list user_data)
  show ?case
  proof (cases "list = [] \<or> tl list = []")
    case True
    then show ?thesis
      by (auto simp: g_list_sort_real.simps [of list])
  next
    case False
    then obtain s1 where s1: "g_list_sort_real (take (length list div 2) list) (Some f) user_data = Inr s1"
      and m1: "mset s1 = mset (take (length list div 2) list)"
      using "1.hyps"(1) by auto
    from False s1 obtain s2 where s2: "g_list_sort_real (drop (length list div 2) list) (Some f) user_data = Inr s2"
      and m2: "mset s2 = mset (drop (length list div 2) list)"
      using "1.hyps"(2) by auto
    obtain l where l: "g_list_sort_merge s1 s2 (Some f) user_data = Inr l"
      and ml: "mset l = mset s1 + mset s2"
      using g_list_sort_merge_Some by blast
    have "mset (take (length list div 2) list) + mset (drop (length list div 2) list) = mset list"
      by (metis append_take_drop_id mset_append)
    with False s1 s2 l ml m1 m2 show ?thesis
      by (simp add: g_list_sort_real.simps [of list])
  qed
qed

lemma g_list_sort_with_data_Some:
  "\<exists>l. g_list_sort_with_data xs (Some f) d = Inr l \<and> mset l = mset xs"
  by (simp add: g_list_sort_with_data_def g_list_sort_real_Some)

lemma g_list_sort_real_NULL:
  "g_list_sort_real xs None d = (if length xs \<le> 1 then Inr xs else Inl NullFunctionCall)"
proof (induction xs "None :: GCompareDataFunc" d rule: g_list_sort_real.induct)
  case (1 list user_data)
  show ?case
  proof (cases "list = [] \<or> tl list = []")
    case True
    then show ?thesis
      by (cases list)
        (auto simp: g_list_sort_real.simps [of "[]"] g_list_sort_real.simps [of "[x]" for x])
  next
    case False
    then have len: "2 \<le> length list"
      by (cases list) (auto simp: Suc_le_eq)
    let ?a = "take (length list div 2) list" and ?b = "drop (length list div 2) list"
    have la: "1 \<le> length ?a" and lb: "1 \<le> length ?b"
      using len by auto
    have a: "g_list_sort_real ?a None user_data = (if length ?a \<le> 1 then Inr ?a else Inl NullFunctionCall)"
      using False "1.hyps"(1) by blast
    show ?thesis
    proof (cases "length ?a \<le> 1")
      case False
      with a \<open>\<not> (list = [] \<or> tl list = [])\<close> len show ?thesis
        by (simp add: g_list_sort_real.simps [of list])
    next
      case True
      with a have a': "g_list_sort_real ?a None user_data = Inr ?a" by simp
      then have b: "g_list_sort_real ?b None user_data = (if length ?b \<le> 1 then Inr ?b else Inl NullFunctionCall)"
        using \<open>\<not> (list = [] \<or> tl list = [])\<close> "1.hyps"(2) by blast
      from la True obtain x where x: "?a = [x]"
        by (cases ?a) auto
      from lb obtain y ys where y: "?b = y # ys"
        by (cases ?b) auto
      show ?thesis
        using \<open>\<not> (list = [] \<or> tl list = [])\<close> len a' b x y
        by (simp add: g_list_sort_real.simps [of list])
    qed
  qed
qed

section \<open>Properties of the loops\<close>

lemma g_list_insert_sorted_real_mset:
  "mset (g_list_insert_sorted_real xs x f d) = add_mset x (mset xs)"
  by (induction xs) auto

lemma remove_loop:
  "players m = pre @ l \<Longrightarrow> \<forall>p \<in> set pre. player_id_of p \<noteq> Some player_name \<Longrightarrow>
   manager_remove_managed_player_loop player_id_of player_name l (length pre) m =
     (case List.find (\<lambda>p. player_id_of p = Some player_name) l of
        None \<Rightarrow> m
      | Some p \<Rightarrow>
          m\<lparr>players := remove1 p (players m),
            emitted := emitted m @ [(PLAYER_VANISHED p, player_names m, remove1 p (players m))],
            ref_count := (ref_count m)(p := ref_count m p - 1)\<rparr>)"
proof (induction l arbitrary: pre)
  case Nil
  then show ?case by simp
next
  case (Cons player l)
  show ?case
  proof (cases "player_id_of player = Some player_name")
    case True
    with Cons.prems have "player \<notin> set pre" by auto
    then have "remove1 player (pre @ player # l) = pre @ l"
      by (simp add: remove1_append)
    with True Cons.prems show ?thesis
      by (simp add: g_strcmp0_eq_0_iff g_list_remove_link_def g_signal_emit_def g_object_unref_def)
  next
    case False
    have "manager_remove_managed_player_loop player_id_of player_name l (length (pre @ [player])) m =
     (case List.find (\<lambda>p. player_id_of p = Some player_name) l of
        None \<Rightarrow> m
      | Some p \<Rightarrow>
          m\<lparr>players := remove1 p (players m),
            emitted := emitted m @ [(PLAYER_VANISHED p, player_names m, remove1 p (players m))],
            ref_count := (ref_count m)(p := ref_count m p - 1)\<rparr>)"
      using Cons.prems False by (intro Cons.IH) auto
    with False show ?thesis
      by (simp add: g_strcmp0_eq_0_iff)
  qed
qed

lemma manager_remove_managed_player_by_name_eq:
  "manager_remove_managed_player_by_name player_id_of m player_name =
     (case List.find (\<lambda>p. player_id_of p = Some player_name) (players m) of
        None \<Rightarrow> m
      | Some p \<Rightarrow>
          m\<lparr>players := remove1 p (players m),
            emitted := emitted m @ [(PLAYER_VANISHED p, player_names m, remove1 p (players m))],
            ref_count := (ref_count m)(p := ref_count m p - 1)\<rparr>)"
  unfolding manager_remove_managed_player_by_name_def
  using remove_loop [of m "[]" "players m" player_id_of player_name] by simp

lemma move_loop:
  "players m = pre @ l \<Longrightarrow> player \<notin> set pre \<Longrightarrow>
   move_player_to_top_loop player l (length pre) m =
     (if player \<in> set l then
        (if sort_func m \<noteq> None then
           (case g_list_sort_with_data (player # remove1 player (players m)) (sort_func m) (sort_data m) of
              Inl e \<Rightarrow> Inl e
            | Inr sorted_list \<Rightarrow> Inr (m\<lparr>players := sorted_list\<rparr>))
         else Inr (m\<lparr>players := player # remove1 player (players m)\<rparr>))
      else Inr m)"
proof (induction l arbitrary: pre)
  case Nil
  then show ?case by simp
next
  case (Cons current l)
  show ?case
  proof (cases "current = player")
    case True
    from Cons.prems have "remove1 player (pre @ player # l) = pre @ l"
      by (simp add: remove1_append)
    with True Cons.prems show ?thesis
      by (simp add: g_list_remove_link_def g_list_concat_def Let_def split: sum.splits)
  next
    case False
    have "move_player_to_top_loop player l (length (pre @ [current])) m =
     (if player \<in> set l then
        (if sort_func m \<noteq> None then
           (case g_list_sort_with_data (player # remove1 player (players m)) (sort_func m) (sort_data m) of
              Inl e \<Rightarrow> Inl e
            | Inr sorted_list \<Rightarrow> Inr (m\<lparr>players := sorted_list\<rparr>))
         else Inr (m\<lparr>players := player # remove1 player (players m)\<rparr>))
      else Inr m)"
      using Cons.prems False by (intro Cons.IH) auto
    with False show ?thesis
      by simp
  qed
qed

section \<open>The operations in closed form\<close>

lemma g_str_has_prefix_iff: "g_str_has_prefix str pre \<longleftrightarrow> (\<exists>r. str = pre @ r)"
proof
  assume "g_str_has_prefix str pre"
  then have "str = pre @ drop (length pre) str"
    by (metis append_take_drop_id g_str_has_prefix_def)
  then show "\<exists>r. str = pre @ r" ..
next
  assume "\<exists>r. str = pre @ r"
  then show "g_str_has_prefix str pre"
    by (auto simp: g_str_has_prefix_def)
qed

lemma player_id_from_bus_name_Some_iff:
  "player_id_from_bus_name P (Some b) = Some i \<longleftrightarrow> b = P @ i \<and> i \<noteq> []"
  by (auto simp: player_id_from_bus_name_def g_str_has_prefix_iff Let_def split: if_splits)

lemma player_id_from_bus_name_None_iff:
  "player_id_from_bus_name P (Some b) = None \<longleftrightarrow> (\<forall>r. b \<noteq> P @ r) \<or> b = P"
  by (auto simp: player_id_from_bus_name_def g_str_has_prefix_iff Let_def split: if_splits)

lemma callback_notification:
  "dbus_name_owner_changed_callback P player_id_of m ''NameOwnerChanged''
     (GVTuple [GVString b, GVString previous_owner, GVString new_owner]) =
   (case player_id_from_bus_name P (Some b) of
      None \<Rightarrow> m
    | Some i \<Rightarrow>
        if new_owner = [] \<and> previous_owner \<noteq> [] then
          (if i \<in> set (player_names m) then
             g_signal_emit
               (manager_remove_managed_player_by_name player_id_of
                  (m\<lparr>player_names := remove1 i (player_names m)\<rparr>) i)
               (NAME_VANISHED (PlayerctlNameEvent i))
           else m)
        else if previous_owner = [] \<and> new_owner \<noteq> [] then
          (if i \<in> set (player_names m) then m
           else g_signal_emit (m\<lparr>player_names := i # player_names m\<rparr>)
                  (NAME_APPEARED (PlayerctlNameEvent i)))
        else m)"
  by (simp add: dbus_name_owner_changed_callback_def g_strcmp0_eq_0_iff
      g_variant_is_of_type_def find_custom_strings remove_link_takeWhile g_list_prepend_def
      split: option.splits)

lemma callback_other_signal:
  "signal_name \<noteq> ''NameOwnerChanged'' \<Longrightarrow>
   dbus_name_owner_changed_callback P player_id_of m signal_name parameters = m"
  by (simp add: dbus_name_owner_changed_callback_def g_strcmp0_eq_0_iff)

lemma remove_managed_players:
  "players (manager_remove_managed_player_by_name player_id_of m n) =
     (case List.find (\<lambda>p. player_id_of p = Some n) (players m) of
        None \<Rightarrow> players m | Some p \<Rightarrow> remove1 p (players m))"
  by (simp add: manager_remove_managed_player_by_name_eq split: option.splits)

lemma remove_managed_player_names:
  "player_names (manager_remove_managed_player_by_name player_id_of m n) = player_names m"
  by (simp add: manager_remove_managed_player_by_name_eq split: option.splits)

lemma callback_distinct:
  assumes "distinct (player_names m)" and "distinct (players m)"
  shows "distinct (player_names (dbus_name_owner_changed_callback P player_id_of m signal_name parameters))
       \<and> distinct (players (dbus_name_owner_changed_callback P player_id_of m signal_name parameters))"
proof (cases "signal_name = ''NameOwnerChanged''")
  case False
  with assms show ?thesis by (simp add: callback_other_signal)
next
  case True
  show ?thesis
  proof (cases "g_variant_is_of_type parameters ''(sss)''")
    case False
    with assms show ?thesis
      by (simp add: dbus_name_owner_changed_callback_def g_warning_def)
  next
    case sss: True
    then obtain b po no where "parameters = GVTuple [GVString b, GVString po, GVString no]"
      by (auto simp: is_of_type_sss_iff)
    with True assms show ?thesis
      by (simp add: callback_notification g_signal_emit_def remove_managed_players
          remove_managed_player_names split: option.splits)
  qed
qed

lemma manage_player_eq:
  "playerctl_player_manager_manage_player m player =
     (if player = NULL \<or> player \<in> set (players m) then Inr m
      else Inr (m\<lparr>players :=
                    (case sort_func m of
                       None \<Rightarrow> player # players m
                     | Some f \<Rightarrow> g_list_insert_sorted_real (players m) player f (sort_data m)),
                  ref_count := (ref_count m)(player := ref_count m player + 1),
                  emitted := emitted m @
                    [(PLAYER_APPEARED player, player_names m,
                      (case sort_func m of
                         None \<Rightarrow> player # players m
                       | Some f \<Rightarrow> g_list_insert_sorted_real (players m) player f (sort_data m)))]\<rparr>))"
  by (auto simp: playerctl_player_manager_manage_player_def manage_player_loop_iff
      g_list_insert_sorted_with_data_def g_list_prepend_def g_signal_emit_def g_object_ref_def)

lemma move_player_to_top_eq:
  "playerctl_player_manager_move_player_to_top m player =
     (if player \<in> set (players m) then
        (if sort_func m \<noteq> None then
           (case g_list_sort_with_data (player # remove1 player (players m)) (sort_func m) (sort_data m) of
              Inl e \<Rightarrow> Inl e
            | Inr sorted_list \<Rightarrow> Inr (m\<lparr>players := sorted_list\<rparr>))
         else Inr (m\<lparr>players := player # remove1 player (players m)\<rparr>))
      else Inr m)"
  unfolding playerctl_player_manager_move_player_to_top_def
  using move_loop [of m "[]" "players m" player] by simp

section \<open>No duplicates\<close>

lemma sort_distinct:
  "g_list_sort_with_data xs f d = Inr l \<Longrightarrow> distinct l \<longleftrightarrow> distinct xs"
proof (cases f)
  case None
  assume "g_list_sort_with_data xs f d = Inr l"
  with None show ?thesis
    by (simp add: g_list_sort_with_data_def g_list_sort_real_NULL split: if_splits)
next
  case (Some c)
  assume "g_list_sort_with_data xs f d = Inr l"
  with Some g_list_sort_with_data_Some [of xs c d] have "mset l = mset xs"
    by auto
  then show ?thesis
    by (rule mset_eq_imp_distinct_iff)
qed

lemma manage_distinct:
  assumes "distinct (players m)" and "playerctl_player_manager_manage_player m player = Inr m'"
  shows "distinct (players m') \<and> player_names m' = player_names m"
proof (cases "player = NULL \<or> player \<in> set (players m)")
  case True
  with assms show ?thesis by (simp add: manage_player_eq)
next
  case False
  have "distinct (g_list_insert_sorted_real (players m) player f (sort_data m))" for f
  proof -
    have "mset (g_list_insert_sorted_real (players m) player f (sort_data m)) = mset (player # players m)"
      by (simp add: g_list_insert_sorted_real_mset)
    then have "distinct (g_list_insert_sorted_real (players m) player f (sort_data m))
        \<longleftrightarrow> distinct (player # players m)"
      by (rule mset_eq_imp_distinct_iff)
    with False assms(1) show ?thesis by simp
  qed
  with False assms show ?thesis
    by (auto simp: manage_player_eq split: option.splits)
qed

lemma move_distinct:
  assumes "distinct (players m)" and "playerctl_player_manager_move_player_to_top m player = Inr m'"
  shows "distinct (players m') \<and> player_names m' = player_names m"
  using assms
  by (auto simp: move_player_to_top_eq sort_distinct split: if_splits sum.splits)

lemma set_sort_distinct:
  assumes "distinct (players m)" and "playerctl_player_manager_set_sort_func m f d n = Inr m'"
  shows "distinct (players m') \<and> player_names m' = player_names m"
  using assms
  by (auto simp: playerctl_player_manager_set_sort_func_def Let_def sort_distinct split: sum.splits)

lemma do_call_distinct:
  assumes "distinct (player_names m)" and "distinct (players m)"
    and "do_call P player_id_of m c = Inr m'"
  shows "distinct (player_names m') \<and> distinct (players m')"
proof (cases c)
  case (Notification s v)
  with assms callback_distinct [of m P player_id_of s v] show ?thesis by auto
next
  case (ManagePlayer p)
  with assms manage_distinct [of m p m'] show ?thesis by auto
next
  case (MovePlayerToTop p)
  with assms move_distinct [of m p m'] show ?thesis by auto
next
  case (SetSortFunc f d n)
  with assms set_sort_distinct [of m f d n m'] show ?thesis by auto
qed

section \<open>What sorting gives\<close>

lemma g_list_insert_sorted_real_eq:
  "g_list_insert_sorted_real xs x f d =
     takeWhile (\<lambda>y. f x y d > 0) xs @ x # dropWhile (\<lambda>y. f x y d > 0) xs"
  by (induction xs) auto

lemma g_list_sort_merge_sorted:
  assumes total: "\<forall>x y. f x y d \<le> 0 \<or> f y x d \<le> 0"
    and trans: "\<forall>x y z. f x y d \<le> 0 \<longrightarrow> f y z d \<le> 0 \<longrightarrow> f x z d \<le> 0"
  shows "cf = Some f \<Longrightarrow> ud = d \<Longrightarrow>
    sorted_wrt (\<lambda>a b. f a b d \<le> 0) l1 \<Longrightarrow> sorted_wrt (\<lambda>a b. f a b d \<le> 0) l2 \<Longrightarrow>
    g_list_sort_merge l1 l2 cf ud = Inr l \<Longrightarrow> sorted_wrt (\<lambda>a b. f a b d \<le> 0) l"
proof (induction l1 l2 cf ud arbitrary: l rule: g_list_sort_merge.induct)
  case (1 l2 compare_func user_data)
  then show ?case by auto
next
  case (2 x xs compare_func user_data)
  then show ?case by auto
next
  case (3 x xs y ys compare_func user_data)
  note cf = \<open>compare_func = Some f\<close> and ud = \<open>user_data = d\<close>
  show ?case
  proof (cases "f x y user_data \<le> 0")
    case True
    with "3.prems" cf obtain r where r: "g_list_sort_merge xs (y # ys) compare_func user_data = Inr r"
      and l: "l = x # r"
      by (auto split: sum.splits)
    have sr: "sorted_wrt (\<lambda>a b. f a b user_data \<le> 0) r"
      using "3.IH"(1) [OF cf True cf ud _ _ r] "3.prems" by simp
    have "mset r = mset xs + mset (y # ys)"
      using g_list_sort_merge_Some [of xs "y # ys" f user_data] r cf by auto
    then have "set r = set xs \<union> set (y # ys)"
      by (metis set_mset_mset set_mset_union)
    moreover have "f x z user_data \<le> 0" if "z \<in> set ys" for z
      using "3.prems" True that trans [rule_format, of x y z] ud by auto
    ultimately show ?thesis
      using sr l "3.prems" True by auto
  next
    case False
    with "3.prems" cf obtain r where r: "g_list_sort_merge (x # xs) ys compare_func user_data = Inr r"
      and l: "l = y # r"
      by (auto split: sum.splits)
    have sr: "sorted_wrt (\<lambda>a b. f a b user_data \<le> 0) r"
      using "3.IH"(2) [OF cf False cf ud _ _ r] "3.prems" by simp
    have "mset r = mset (x # xs) + mset ys"
      using g_list_sort_merge_Some [of "x # xs" ys f user_data] r cf by auto
    then have "set r = set (x # xs) \<union> set ys"
      by (metis set_mset_mset set_mset_union)
    moreover have yx: "f y x user_data \<le> 0"
      using total [rule_format, of x y] False ud by auto
    moreover have "f y z user_data \<le> 0" if "z \<in> set xs" for z
      using "3.prems" yx that trans [rule_format, of y x z] ud by auto
    ultimately show ?thesis
      using sr l "3.prems" by auto
  qed
qed


lemma g_list_sort_real_sorted:
  assumes total: "\<forall>x y. f x y d \<le> 0 \<or> f y x d \<le> 0"
    and trans: "\<forall>x y z. f x y d \<le> 0 \<longrightarrow> f y z d \<le> 0 \<longrightarrow> f x z d \<le> 0"
  shows "cf = Some f \<Longrightarrow> ud = d \<Longrightarrow> g_list_sort_real xs cf ud = Inr l \<Longrightarrow>
    sorted_wrt (\<lambda>a b. f a b d \<le> 0) l"
proof (induction xs cf ud arbitrary: l rule: g_list_sort_real.induct)
  case (1 list compare_func user_data)
  note cf = \<open>compare_func = Some f\<close> and ud = \<open>user_data = d\<close>
  show ?case
  proof (cases "list = [] \<or> tl list = []")
    case True
    then have "g_list_sort_real list compare_func user_data = Inr list"
      by (auto simp: g_list_sort_real.simps [of list])
    with "1.prems" have "l = list" by simp
    with True show ?thesis
      by (cases list) auto
  next
    case False
    then have ne: "list \<noteq> []" "tl list \<noteq> []" by auto
    obtain s1 where s1: "g_list_sort_real (take (length list div 2) list) compare_func user_data = Inr s1"
      using g_list_sort_real_Some [of "take (length list div 2) list" f user_data] cf by auto
    obtain s2 where s2: "g_list_sort_real (drop (length list div 2) list) compare_func user_data = Inr s2"
      using g_list_sort_real_Some [of "drop (length list div 2) list" f user_data] cf by auto
    have "sorted_wrt (\<lambda>a b. f a b d \<le> 0) s1"
      using "1.IH"(1) [OF ne cf ud s1] .
    moreover have "sorted_wrt (\<lambda>a b. f a b d \<le> 0) s2"
      using "1.IH"(2) [OF ne s1 cf ud s2] .
    moreover have "g_list_sort_merge s1 s2 compare_func user_data = Inr l"
      using "1.prems"(3) ne s1 s2 by (simp add: g_list_sort_real.simps [of list])
    ultimately show ?thesis
      using g_list_sort_merge_sorted [OF total trans cf ud] by blast
  qed
qed

lemma g_list_sort_with_data_sorted:
  assumes "\<forall>x y. f x y d \<le> 0 \<or> f y x d \<le> 0"
    and "\<forall>x y z. f x y d \<le> 0 \<longrightarrow> f y z d \<le> 0 \<longrightarrow> f x z d \<le> 0"
    and "g_list_sort_with_data xs (Some f) d = Inr l"
  shows "sorted_wrt (\<lambda>a b. f a b d \<le> 0) l"
  using g_list_sort_real_sorted [where f = f and d = d and cf = "Some f" and ud = d and xs = xs and l = l]
    assms
  by (simp add: g_list_sort_with_data_def)

lemma g_list_sort_with_data_NULL:
  "g_list_sort_with_data xs None d = (if length xs \<le> 1 then Inr xs else Inl NullFunctionCall)"
  by (simp add: g_list_sort_with_data_def g_list_sort_real_NULL)

lemma set_sort_func_eq:
  "playerctl_player_manager_set_sort_func m f d n =
     (case g_list_sort_with_data (players m) f d of
        Inl e \<Rightarrow> Inl e
      | Inr l \<Rightarrow> Inr (m\<lparr>sort_func := f, sort_data := d, sort_notify := n, players := l\<rparr>))"
  by (simp add: playerctl_player_manager_set_sort_func_def Let_def split: sum.splits)

lemma g_list_sort_real_1: "g_list_sort_real [x] cf d = Inr [x]"
  by (simp add: g_list_sort_real.simps [of "[x]"])

lemma g_list_sort_real_2: "g_list_sort_real [x, y] cf d = g_list_sort_merge [x] [y] cf d"
  by (simp add: g_list_sort_real.simps [of "[x, y]"] g_list_sort_real_1)

lemma g_list_sort_real_3:
  "g_list_sort_real [x, y, z] cf d =
     (case g_list_sort_merge [y] [z] cf d of
        Inl e \<Rightarrow> Inl e
      | Inr s \<Rightarrow> g_list_sort_merge [x] s cf d)"
  by (simp add: g_list_sort_real.simps [of "[x, y, z]"] g_list_sort_real_1 g_list_sort_real_2)

lemma manage_player_returns: "\<exists>m'. playerctl_player_manager_manage_player m player = Inr m'"
  by (simp add: manage_player_eq)

lemma move_player_to_top_returns:
  "\<exists>m'. playerctl_player_manager_move_player_to_top m player = Inr m'"
proof (cases "sort_func m")
  case None
  then show ?thesis by (simp add: move_player_to_top_eq)
next
  case (Some f)
  obtain l where "g_list_sort_with_data (player # remove1 player (players m)) (Some f) (sort_data m) = Inr l"
    using g_list_sort_with_data_Some by blast
  with Some show ?thesis by (simp add: move_player_to_top_eq)
qed

lemma set_sort_func_NULL:
  "playerctl_player_manager_set_sort_func m None d n =
     (if length (players m) \<le> 1
      then Inr (m\<lparr>sort_func := None, sort_data := d, sort_notify := n\<rparr>)
      else Inl NullFunctionCall)"
  by (simp add: set_sort_func_eq g_list_sort_with_data_NULL)

section \<open>The specified properties\<close>

text \<open>
  C1.  A notification classified as vanished (the bus name is the prefix followed by a
  non-empty identifier, the new owner is empty, the previous owner is not) whose
  identifier is in the name registry: the callback removes the identifier from the
  registry; then, if the collection holds a player whose \<^verbatim>\<open>player-id\<close> is the
  identifier, it removes the first such player, emits \<^verbatim>\<open>player-vanished\<close> with it and
  drops the manager's reference; then it emits \<^verbatim>\<open>name-vanished\<close> with a name event
  that carries the identifier.  Both signals are emitted before the callback returns,
  in this order, and their handlers already find the registry without the identifier
  and the collection without the player.  Nothing else changes.  In a registry without
  duplicates the identifier is gone afterwards, and in a collection without duplicates
  so is the player.
\<close>

theorem vanished_tracked_name:
  assumes "player_id \<noteq> []" and "previous_owner \<noteq> []"
    and "player_id \<in> set (player_names m)"
  shows "(let m' = dbus_name_owner_changed_callback P player_id_of m ''NameOwnerChanged''
                     (GVTuple [GVString (P @ player_id), GVString previous_owner, GVString []])
          in m' =
               (case List.find (\<lambda>p. player_id_of p = Some player_id) (players m) of
                  None \<Rightarrow>
                    m\<lparr>player_names := remove1 player_id (player_names m),
                      emitted := emitted m @
                        [(NAME_VANISHED (PlayerctlNameEvent player_id),
                          remove1 player_id (player_names m), players m)]\<rparr>
                | Some player \<Rightarrow>
                    m\<lparr>player_names := remove1 player_id (player_names m),
                      players := remove1 player (players m),
                      ref_count := (ref_count m)(player := ref_count m player - 1),
                      emitted := emitted m @
                        [(PLAYER_VANISHED player,
                          remove1 player_id (player_names m), remove1 player (players m)),
                         (NAME_VANISHED (PlayerctlNameEvent player_id),
                          remove1 player_id (player_names m), remove1 player (players m))]\<rparr>)
             \<and> (distinct (player_names m) \<longrightarrow> player_id \<notin> set (player_names m'))
             \<and> (distinct (players m) \<longrightarrow>
                  (case List.find (\<lambda>p. player_id_of p = Some player_id) (players m) of
                     None \<Rightarrow> players m' = players m
                   | Some player \<Rightarrow>
                       player \<in> set (players m) \<and> player_id_of player = Some player_id \<and>
                       player \<notin> set (players m'))))"
proof -
  have "player_id_from_bus_name P (Some (P @ player_id)) = Some player_id"
    using assms(1) by (simp add: player_id_from_bus_name_Some_iff)
  with assms have result:
    "dbus_name_owner_changed_callback P player_id_of m ''NameOwnerChanged''
       (GVTuple [GVString (P @ player_id), GVString previous_owner, GVString []]) =
     g_signal_emit
       (manager_remove_managed_player_by_name player_id_of
          (m\<lparr>player_names := remove1 player_id (player_names m)\<rparr>) player_id)
       (NAME_VANISHED (PlayerctlNameEvent player_id))"
    by (simp add: callback_notification)
  show ?thesis
  proof (cases "List.find (\<lambda>p. player_id_of p = Some player_id) (players m)")
    case None
    then show ?thesis
      by (simp add: result manager_remove_managed_player_by_name_eq g_signal_emit_def Let_def)
  next
    case (Some player)
    then have "player \<in> set (players m)" and "player_id_of player = Some player_id"
      by (auto simp: find_Some_iff)
    with Some show ?thesis
      by (simp add: result manager_remove_managed_player_by_name_eq g_signal_emit_def Let_def)
  qed
qed

theorem vanished_tracked_name_witness:
  "(let m = dbus_name_owner_changed_callback mpris_prefix three_players
              (new_manager\<lparr>player_names := [''vlc'', ''spotify''], players := [2, 1]\<rparr>)
              ''NameOwnerChanged''
              (GVTuple [GVString (mpris_prefix @ ''spotify''), GVString '':1.5'', GVString []])
    in player_names m = [''vlc''] \<and> players m = [2] \<and> ref_count m 1 = 0 \<and>
       emitted m = [(PLAYER_VANISHED 1, [''vlc''], [2]),
                    (NAME_VANISHED (PlayerctlNameEvent ''spotify''), [''vlc''], [2])])
   \<and>
   (let m = dbus_name_owner_changed_callback mpris_prefix three_players
              (new_manager\<lparr>player_names := [''spotify'']\<rparr>)
              ''NameOwnerChanged''
              (GVTuple [GVString (mpris_prefix @ ''spotify''), GVString '':1.5'', GVString []])
    in player_names m = [] \<and> players m = [] \<and>
       emitted m = [(NAME_VANISHED (PlayerctlNameEvent ''spotify''), [], [])])"
  using
    vanished_tracked_name [of "''spotify''" "'':1.5''"
      "new_manager\<lparr>player_names := [''vlc'', ''spotify''], players := [2, 1]\<rparr>"
      mpris_prefix three_players]
    vanished_tracked_name [of "''spotify''" "'':1.5''"
      "new_manager\<lparr>player_names := [''spotify'']\<rparr>"
      mpris_prefix three_players]
  by (simp add: new_manager_def three_players_def Let_def)

text \<open>
  C2.  From a state in which no identifier occurs twice in the name registry and no
  player occurs twice in the player collection, every sequence of notifications and of
  calls of \<^verbatim>\<open>playerctl_player_manager_manage_player\<close>,
  \<^verbatim>\<open>playerctl_player_manager_move_player_to_top\<close> and
  \<^verbatim>\<open>playerctl_player_manager_set_sort_func\<close> that returns leaves a state in which,
  again, no identifier occurs twice in the registry and no player occurs twice in the
  collection.
\<close>

theorem no_duplicates_invariant:
  assumes "distinct (player_names m)" and "distinct (players m)"
    and "do_calls P player_id_of m cs = Inr m'"
  shows "distinct (player_names m') \<and> distinct (players m')"
  using assms
proof (induction cs arbitrary: m)
  case Nil
  then show ?case by simp
next
  case (Cons c cs)
  from Cons.prems(3) obtain m1 where step: "do_call P player_id_of m c = Inr m1"
    and rest: "do_calls P player_id_of m1 cs = Inr m'"
    by (auto split: sum.splits)
  from do_call_distinct [OF Cons.prems(1,2) step]
  have "distinct (player_names m1)" and "distinct (players m1)"
    by simp_all
  then show ?case
    using rest by (rule Cons.IH)
qed

theorem no_duplicates_invariant_witness:
  "\<exists>m'. do_calls mpris_prefix three_players new_manager
          [Notification ''NameOwnerChanged''
             (GVTuple [GVString (mpris_prefix @ ''spotify''), GVString [], GVString '':1.5'']),
           Notification ''NameOwnerChanged''
             (GVTuple [GVString (mpris_prefix @ ''spotify''), GVString [], GVString '':1.5'']),
           ManagePlayer 1,
           ManagePlayer 1,
           Notification ''NameOwnerChanged''
             (GVTuple [GVString (mpris_prefix @ ''vlc''), GVString [], GVString '':1.7'']),
           ManagePlayer 2,
           MovePlayerToTop 1,
           SetSortFunc (Some (by_priority int)) NULL NULL,
           MovePlayerToTop 2,
           Notification ''NameOwnerChanged''
             (GVTuple [GVString (mpris_prefix @ ''spotify''), GVString '':1.5'', GVString []])]
        = Inr m'
      \<and> player_names m' = [''vlc''] \<and> players m' = [2]
      \<and> distinct (player_names m') \<and> distinct (players m')"
proof -
  let ?cs = "[Notification ''NameOwnerChanged''
             (GVTuple [GVString (mpris_prefix @ ''spotify''), GVString [], GVString '':1.5'']),
           Notification ''NameOwnerChanged''
             (GVTuple [GVString (mpris_prefix @ ''spotify''), GVString [], GVString '':1.5'']),
           ManagePlayer 1,
           ManagePlayer 1,
           Notification ''NameOwnerChanged''
             (GVTuple [GVString (mpris_prefix @ ''vlc''), GVString [], GVString '':1.7'']),
           ManagePlayer 2,
           MovePlayerToTop 1,
           SetSortFunc (Some (by_priority int)) NULL NULL,
           MovePlayerToTop 2,
           Notification ''NameOwnerChanged''
             (GVTuple [GVString (mpris_prefix @ ''spotify''), GVString '':1.5'', GVString []])]"
  have id: "player_id_from_bus_name mpris_prefix (Some (mpris_prefix @ i)) =
      (if i = [] then None else Some i)" for i
    by (simp add: player_id_from_bus_name_def g_str_has_prefix_def)
  have "\<exists>m'. do_calls mpris_prefix three_players new_manager ?cs = Inr m'
      \<and> player_names m' = [''vlc''] \<and> players m' = [2]"
    by (simp add: new_manager_def callback_notification id manage_player_eq
        move_player_to_top_eq set_sort_func_eq g_list_sort_with_data_def g_list_sort_real_2
        g_signal_emit_def manager_remove_managed_player_by_name_eq three_players_def
        by_priority_def)
  then obtain m' where run: "do_calls mpris_prefix three_players new_manager ?cs = Inr m'"
    and names: "player_names m' = [''vlc'']" and handles: "players m' = [2]"
    by blast
  have "distinct (player_names new_manager)" and "distinct (players new_manager)"
    by (simp_all add: new_manager_def)
  from no_duplicates_invariant [OF this run] run names handles
  show ?thesis
    by blast
qed

text \<open>
  C3.  \<^verbatim>\<open>playerctl_player_manager_manage_player\<close>: with \<open>NULL\<close> it changes nothing
  and emits nothing; with a player that is in the collection already (the same
  pointer) it changes nothing and emits nothing; with any other player it always
  returns, having put the player into the collection (before the first player that the
  comparison function does not place before it, or at the end, when a comparison
  function is set; at the front otherwise), taken one reference on it and emitted
  \<^verbatim>\<open>player-appeared\<close> with it once, the handlers finding the player in the collection.
  Managing the same player a second time gives the state of the first call again, so
  that \<^verbatim>\<open>player-appeared\<close> has been emitted once in all.
\<close>

theorem manage_player_contract:
  "playerctl_player_manager_manage_player m NULL = Inr m
   \<and> (player \<in> set (players m) \<longrightarrow> playerctl_player_manager_manage_player m player = Inr m)
   \<and> (player \<noteq> NULL \<and> player \<notin> set (players m) \<longrightarrow>
        (let inserted =
             (case sort_func m of
                None \<Rightarrow> player # players m
              | Some f \<Rightarrow>
                  takeWhile (\<lambda>p. f player p (sort_data m) > 0) (players m) @ player #
                  dropWhile (\<lambda>p. f player p (sort_data m) > 0) (players m))
         in playerctl_player_manager_manage_player m player =
             Inr (m\<lparr>players := inserted,
                    ref_count := (ref_count m)(player := ref_count m player + 1),
                    emitted := emitted m @ [(PLAYER_APPEARED player, player_names m, inserted)]\<rparr>)))
   \<and> (\<exists>m'. playerctl_player_manager_manage_player m player = Inr m'
         \<and> playerctl_player_manager_manage_player m' player = Inr m'
         \<and> (emitted m' = emitted m \<or>
              emitted m' = emitted m @ [(PLAYER_APPEARED player, player_names m', players m')]))"
proof -
  have in_inserted: "player \<in> set (g_list_insert_sorted_real xs player f d)" for xs f d
    by (simp add: g_list_insert_sorted_real_eq)
  show ?thesis
    by (auto simp: manage_player_eq g_list_insert_sorted_real_eq [symmetric] in_inserted Let_def
        split: option.splits)
qed

theorem manage_player_contract_witness:
  "playerctl_player_manager_manage_player (new_manager\<lparr>players := [1, 2]\<rparr>) 3 =
     Inr (new_manager\<lparr>players := [3, 1, 2],
            ref_count := (ref_count new_manager)(3 := 2),
            emitted := [(PLAYER_APPEARED 3, [], [3, 1, 2])]\<rparr>)
   \<and> playerctl_player_manager_manage_player (new_manager\<lparr>players := [1, 2]\<rparr>) 2 =
     Inr (new_manager\<lparr>players := [1, 2]\<rparr>)
   \<and> playerctl_player_manager_manage_player
       (new_manager\<lparr>players := [1, 3], sort_func := Some (by_priority int)\<rparr>) 2 =
     Inr (new_manager\<lparr>players := [1, 2, 3], sort_func := Some (by_priority int),
            ref_count := (ref_count new_manager)(2 := 2),
            emitted := [(PLAYER_APPEARED 2, [], [1, 2, 3])]\<rparr>)"
  using
    manage_player_contract [of "new_manager\<lparr>players := [1, 2]\<rparr>" 3]
    manage_player_contract [of "new_manager\<lparr>players := [1, 2]\<rparr>" 2]
    manage_player_contract
      [of "new_manager\<lparr>players := [1, 3], sort_func := Some (by_priority int)\<rparr>" 2]
  by (simp add: new_manager_def by_priority_def Let_def)

text \<open>
  C4.  A notification classified as appeared (the bus name is the prefix followed by a
  non-empty identifier, the previous owner is empty, the new owner is not): if the
  identifier is not in the name registry it is put at its front and \<^verbatim>\<open>name-appeared\<close>
  is emitted with a name event that carries it; if it is in the registry already
  the callback changes nothing and emits nothing.  In both cases the player collection
  is left as it was.  In particular, with the registry \<open>[''spotify'']\<close> the notification
  for the bus name of \<open>spotify\<close> with owners \<open>''''\<close> and \<open>'':1.5''\<close> changes nothing.
\<close>

theorem appeared_name:
  assumes "player_id \<noteq> []" and "new_owner \<noteq> []"
  shows "dbus_name_owner_changed_callback P player_id_of m ''NameOwnerChanged''
           (GVTuple [GVString (P @ player_id), GVString [], GVString new_owner]) =
         (if player_id \<in> set (player_names m) then m
          else m\<lparr>player_names := player_id # player_names m,
                 emitted := emitted m @
                   [(NAME_APPEARED (PlayerctlNameEvent player_id),
                     player_id # player_names m, players m)]\<rparr>)
       \<and> players (dbus_name_owner_changed_callback P player_id_of m ''NameOwnerChanged''
           (GVTuple [GVString (P @ player_id), GVString [], GVString new_owner])) = players m
       \<and> (player_names m' = [''spotify''] \<longrightarrow>
            dbus_name_owner_changed_callback P player_id_of m' ''NameOwnerChanged''
              (GVTuple [GVString (P @ ''spotify''), GVString [], GVString '':1.5'']) = m')"
proof -
  have "player_id_from_bus_name P (Some (P @ i)) = Some i" if "i \<noteq> []" for i
    using that by (simp add: player_id_from_bus_name_Some_iff)
  with assms show ?thesis
    by (simp add: callback_notification g_signal_emit_def)
qed

theorem appeared_name_witness:
  "(let m = dbus_name_owner_changed_callback mpris_prefix three_players
              (new_manager\<lparr>player_names := [''spotify''], players := [1]\<rparr>)
              ''NameOwnerChanged''
              (GVTuple [GVString (mpris_prefix @ ''vlc''), GVString [], GVString '':1.7''])
    in player_names m = [''vlc'', ''spotify''] \<and> players m = [1] \<and>
       emitted m = [(NAME_APPEARED (PlayerctlNameEvent ''vlc''), [''vlc'', ''spotify''], [1])])
   \<and>
   dbus_name_owner_changed_callback mpris_prefix three_players
     (new_manager\<lparr>player_names := [''spotify''], players := [1]\<rparr>)
     ''NameOwnerChanged''
     (GVTuple [GVString (mpris_prefix @ ''spotify''), GVString [], GVString '':1.5''])
   = new_manager\<lparr>player_names := [''spotify''], players := [1]\<rparr>"
  using
    appeared_name [of "''vlc''" "'':1.7''" mpris_prefix three_players
      "new_manager\<lparr>player_names := [''spotify''], players := [1]\<rparr>"
      "new_manager\<lparr>player_names := [''spotify''], players := [1]\<rparr>"]
  by (simp add: new_manager_def)

text \<open>
  C5.  A notification that is classified neither as appeared nor as vanished: the bus
  name does not start with the prefix, or nothing follows the prefix, or the previous
  and the new owner are both empty, or they are both non-empty (an owner hand-off).
  The callback then changes nothing: the registry, the collection and every other part
  of the state stay as they are, and no signal is emitted.
\<close>

theorem irrelevant_notification:
  assumes "(\<forall>suffix. bus_name \<noteq> P @ suffix) \<or> bus_name = P
         \<or> (previous_owner = [] \<and> new_owner = [])
         \<or> (previous_owner \<noteq> [] \<and> new_owner \<noteq> [])"
  shows "dbus_name_owner_changed_callback P player_id_of m ''NameOwnerChanged''
           (GVTuple [GVString bus_name, GVString previous_owner, GVString new_owner]) = m"
proof (cases "player_id_from_bus_name P (Some bus_name)")
  case None
  then show ?thesis
    by (simp add: callback_notification)
next
  case (Some i)
  then have "bus_name = P @ i" and "i \<noteq> []"
    by (simp_all add: player_id_from_bus_name_Some_iff)
  with assms have "(previous_owner = [] \<and> new_owner = [])
         \<or> (previous_owner \<noteq> [] \<and> new_owner \<noteq> [])"
    by auto
  with Some show ?thesis
    by (auto simp: callback_notification)
qed

theorem irrelevant_notification_witness:
  "(let m = new_manager\<lparr>player_names := [''spotify''], players := [1]\<rparr> in
    dbus_name_owner_changed_callback mpris_prefix three_players m ''NameOwnerChanged''
      (GVTuple [GVString ''org.freedesktop.Notifications'', GVString '':1.5'', GVString []]) = m
    \<and> dbus_name_owner_changed_callback mpris_prefix three_players m ''NameOwnerChanged''
      (GVTuple [GVString mpris_prefix, GVString '':1.5'', GVString []]) = m
    \<and> dbus_name_owner_changed_callback mpris_prefix three_players m ''NameOwnerChanged''
      (GVTuple [GVString (mpris_prefix @ ''spotify''), GVString [], GVString []]) = m
    \<and> dbus_name_owner_changed_callback mpris_prefix three_players m ''NameOwnerChanged''
      (GVTuple [GVString (mpris_prefix @ ''spotify''), GVString '':1.5'', GVString '':1.9'']) = m)"
proof -
  let ?m = "new_manager\<lparr>player_names := [''spotify''], players := [1]\<rparr>"
  have no_prefix: "\<forall>suffix. ''org.freedesktop.Notifications'' \<noteq> mpris_prefix @ suffix"
    by (simp add: mpris_prefix_def)
  show ?thesis
    using
      irrelevant_notification [of "''org.freedesktop.Notifications''" mpris_prefix
        "'':1.5''" "[]" three_players ?m]
      irrelevant_notification [of mpris_prefix mpris_prefix "'':1.5''" "[]" three_players ?m]
      irrelevant_notification [of "mpris_prefix @ ''spotify''" mpris_prefix "[]" "[]"
        three_players ?m]
      irrelevant_notification [of "mpris_prefix @ ''spotify''" mpris_prefix "'':1.5''" "'':1.9''"
        three_players ?m]
      no_prefix
    by (simp add: Let_def)
qed

text \<open>
  C6.  \<^verbatim>\<open>playerctl_player_manager_move_player_to_top\<close>: when the player is in the
  collection, it is moved to the front and the other players keep their order; then,
  when a comparison function is set, the whole collection is sorted with it, which
  always returns.  When the player is not in the collection, nothing changes and the
  call returns normally.  With no comparison function and the collection \<open>[a, b, c]\<close>
  of three different players, moving \<open>c\<close> to the top gives \<open>[c, a, b]\<close>.
\<close>

theorem move_player_to_top_contract:
  "(player \<in> set (players m) \<and> sort_func m = None \<longrightarrow>
      playerctl_player_manager_move_player_to_top m player =
        Inr (m\<lparr>players := player # remove1 player (players m)\<rparr>))
   \<and> (player \<in> set (players m) \<and> sort_func m = Some f \<longrightarrow>
        (\<exists>sorted_list.
           g_list_sort_with_data (player # remove1 player (players m)) (Some f) (sort_data m) =
             Inr sorted_list
         \<and> mset sorted_list = mset (players m)
         \<and> playerctl_player_manager_move_player_to_top m player =
             Inr (m\<lparr>players := sorted_list\<rparr>)))
   \<and> (player \<notin> set (players m) \<longrightarrow>
        playerctl_player_manager_move_player_to_top m player = Inr m)
   \<and> (players m = [a, b, c] \<and> distinct [a, b, c] \<and> sort_func m = None \<longrightarrow>
        playerctl_player_manager_move_player_to_top m c = Inr (m\<lparr>players := [c, a, b]\<rparr>))"
proof -
  have "\<exists>sorted_list.
           g_list_sort_with_data (player # remove1 player (players m)) (Some f) (sort_data m) =
             Inr sorted_list
         \<and> mset sorted_list = mset (players m)
         \<and> playerctl_player_manager_move_player_to_top m player =
             Inr (m\<lparr>players := sorted_list\<rparr>)"
    if "player \<in> set (players m)" and "sort_func m = Some f"
  proof -
    obtain l where l: "g_list_sort_with_data (player # remove1 player (players m)) (Some f) (sort_data m) = Inr l"
      and ml: "mset l = mset (player # remove1 player (players m))"
      using g_list_sort_with_data_Some by blast
    from that(1) have "mset (player # remove1 player (players m)) = mset (players m)"
      by simp
    with l ml that show ?thesis
      by (simp add: move_player_to_top_eq)
  qed
  then show ?thesis
    by (auto simp: move_player_to_top_eq)
qed

theorem move_player_to_top_contract_witness:
  "playerctl_player_manager_move_player_to_top (new_manager\<lparr>players := [1, 2, 3]\<rparr>) 3 =
     Inr (new_manager\<lparr>players := [3, 1, 2]\<rparr>)
   \<and> playerctl_player_manager_move_player_to_top (new_manager\<lparr>players := [1, 2, 3]\<rparr>) 4 =
     Inr (new_manager\<lparr>players := [1, 2, 3]\<rparr>)
   \<and> playerctl_player_manager_move_player_to_top
         (new_manager\<lparr>players := [1, 2, 3], sort_func := Some (by_priority int)\<rparr>) 3 =
       Inr (new_manager\<lparr>players := [1, 2, 3], sort_func := Some (by_priority int)\<rparr>)"
  using
    move_player_to_top_contract [of 3 "new_manager\<lparr>players := [1, 2, 3]\<rparr>" "by_priority int" 1 2 3]
    move_player_to_top_contract [of 4 "new_manager\<lparr>players := [1, 2, 3]\<rparr>" "by_priority int" 1 2 3]
    move_player_to_top_contract
      [of 3 "new_manager\<lparr>players := [1, 2, 3], sort_func := Some (by_priority int)\<rparr>"
        "by_priority int" 1 2 3]
  by (auto simp: new_manager_def g_list_sort_with_data_def g_list_sort_real_3 by_priority_def)

text \<open>
  C7.  \<^verbatim>\<open>playerctl_player_manager_set_sort_func\<close> does not always replace the sort
  configuration and sort the collection before it returns: the comparison function is
  a pointer that may be \<open>NULL\<close>, the function does not test it, and with \<open>NULL\<close> and two
  players or more the call does not return (as for the collection \<open>[1, 2, 3]\<close>); with
  \<open>NULL\<close> and at most one player it returns with the configuration replaced.  With a
  comparison function that is not \<open>NULL\<close> it always returns; the three fields of the sort
  configuration then hold the arguments of the call, whatever they held before; the
  collection is the result of sorting the previous one with the new function and the
  new user data (a rearrangement of it, in non-decreasing order when the function is a
  total preorder); no signal is emitted and no \<^verbatim>\<open>GDestroyNotify\<close> is called, so the
  previous user data is not destroyed.  With the collection \<open>[a, b, c]\<close> and a function
  that orders by the priorities \<open>b = 1\<close>, \<open>a = 2\<close>, \<open>c = 3\<close> the collection is
  \<open>[b, a, c]\<close> when the call returns.
\<close>

theorem set_sort_func_contract:
  "(\<exists>sorted_list.
      g_list_sort_with_data (players m) (Some f) d = Inr sorted_list
    \<and> mset sorted_list = mset (players m)
    \<and> ((\<forall>x y. f x y d \<le> 0 \<or> f y x d \<le> 0) \<and>
        (\<forall>x y z. f x y d \<le> 0 \<longrightarrow> f y z d \<le> 0 \<longrightarrow> f x z d \<le> 0) \<longrightarrow>
        sorted_wrt (\<lambda>a b. f a b d \<le> 0) sorted_list)
    \<and> playerctl_player_manager_set_sort_func m (Some f) d n =
        Inr (m\<lparr>sort_func := Some f, sort_data := d, sort_notify := n, players := sorted_list\<rparr>)
    \<and> notify_calls (m\<lparr>sort_func := Some f, sort_data := d, sort_notify := n,
                        players := sorted_list\<rparr>) = notify_calls m)
   \<and> (players m = [a, b, c] \<and> priority a = 2 \<and> priority b = 1 \<and> priority c = 3 \<longrightarrow>
        playerctl_player_manager_set_sort_func m (Some (by_priority priority)) d n =
          Inr (m\<lparr>sort_func := Some (by_priority priority), sort_data := d, sort_notify := n,
                 players := [b, a, c]\<rparr>))
   \<and> playerctl_player_manager_set_sort_func m None d n =
       (if length (players m) \<le> 1
        then Inr (m\<lparr>sort_func := None, sort_data := d, sort_notify := n\<rparr>)
        else Inl NullFunctionCall)
   \<and> playerctl_player_manager_set_sort_func (new_manager\<lparr>players := [1, 2, 3]\<rparr>)
         None NULL NULL = Inl NullFunctionCall"
proof -
  obtain l where l: "g_list_sort_with_data (players m) (Some f) d = Inr l"
    and ml: "mset l = mset (players m)"
    using g_list_sort_with_data_Some by blast
  have "sorted_wrt (\<lambda>a b. f a b d \<le> 0) l"
    if "\<forall>x y. f x y d \<le> 0 \<or> f y x d \<le> 0"
      and "\<forall>x y z. f x y d \<le> 0 \<longrightarrow> f y z d \<le> 0 \<longrightarrow> f x z d \<le> 0"
    using g_list_sort_with_data_sorted [OF that l] .
  with l ml have general: "\<exists>sorted_list.
      g_list_sort_with_data (players m) (Some f) d = Inr sorted_list
    \<and> mset sorted_list = mset (players m)
    \<and> ((\<forall>x y. f x y d \<le> 0 \<or> f y x d \<le> 0) \<and>
        (\<forall>x y z. f x y d \<le> 0 \<longrightarrow> f y z d \<le> 0 \<longrightarrow> f x z d \<le> 0) \<longrightarrow>
        sorted_wrt (\<lambda>a b. f a b d \<le> 0) sorted_list)
    \<and> playerctl_player_manager_set_sort_func m (Some f) d n =
        Inr (m\<lparr>sort_func := Some f, sort_data := d, sort_notify := n, players := sorted_list\<rparr>)
    \<and> notify_calls (m\<lparr>sort_func := Some f, sort_data := d, sort_notify := n,
                        players := sorted_list\<rparr>) = notify_calls m"
    by (intro exI [of _ l]) (simp add: set_sort_func_eq)
  have example: "playerctl_player_manager_set_sort_func m (Some (by_priority priority)) d n =
          Inr (m\<lparr>sort_func := Some (by_priority priority), sort_data := d, sort_notify := n,
                 players := [b, a, c]\<rparr>)"
    if "players m = [a, b, c]" and "priority a = 2" and "priority b = 1" and "priority c = 3"
    using that
    by (simp add: set_sort_func_eq g_list_sort_with_data_def g_list_sort_real_3 by_priority_def)
  have null_crash: "playerctl_player_manager_set_sort_func (new_manager\<lparr>players := [1, 2, 3]\<rparr>)
         None NULL NULL = Inl NullFunctionCall"
    by (simp add: set_sort_func_NULL)
  from general example null_crash set_sort_func_NULL [of m d n] show ?thesis
    by blast
qed

theorem set_sort_func_contract_witness:
  "playerctl_player_manager_set_sort_func
     (new_manager\<lparr>players := [1, 2, 3], sort_func := Some (by_priority int), sort_data := 5,
        sort_notify := 6\<rparr>)
     (Some (by_priority (\<lambda>p. if p = 1 then 2 else if p = 2 then 1 else 3))) 8 9 =
   Inr (new_manager\<lparr>players := [2, 1, 3],
          sort_func := Some (by_priority (\<lambda>p. if p = 1 then 2 else if p = 2 then 1 else 3)),
          sort_data := 8, sort_notify := 9\<rparr>)"
  using set_sort_func_contract
    [of "new_manager\<lparr>players := [1, 2, 3], sort_func := Some (by_priority int), sort_data := 5,
        sort_notify := 6\<rparr>"
      "by_priority (\<lambda>p. if p = 1 then 2 else if p = 2 then 1 else 3)" 8 9
      1 2 3 "\<lambda>p. if p = 1 then 2 else if p = 2 then 1 else 3"]
  by (simp add: new_manager_def)

text \<open>
  C8.  \<^verbatim>\<open>playerctl_player_manager_manage_player\<close>,
  \<^verbatim>\<open>playerctl_player_manager_move_player_to_top\<close> and
  \<^verbatim>\<open>playerctl_player_manager_set_sort_func\<close> with a comparison function return in every
  state and for every argument, and the property getter returns the two lists and
  leaves the state as it is.  \<^verbatim>\<open>playerctl_player_manager_set_sort_func\<close> with \<open>NULL\<close>
  for the comparison function returns only when the collection has at most one player:
  with two players or more, \<^verbatim>\<open>g_list_sort_with_data\<close> calls the \<open>NULL\<close> function and
  the call does not return, as for the collection of the players 1 and 2.
\<close>

theorem set_sort_func_NULL_does_not_return:
  "(\<exists>m'. playerctl_player_manager_manage_player m player = Inr m')
   \<and> (\<exists>m'. playerctl_player_manager_move_player_to_top m player = Inr m')
   \<and> playerctl_player_manager_get_property m PROP_PLAYERS = (Some (Players (players m)), m)
   \<and> playerctl_player_manager_get_property m PROP_PLAYER_NAMES =
       (Some (PlayerNames (player_names m)), m)
   \<and> (\<exists>m'. playerctl_player_manager_set_sort_func m (Some f) d n = Inr m')
   \<and> playerctl_player_manager_set_sort_func m None d n =
       (if length (players m) \<le> 1
        then Inr (m\<lparr>sort_func := None, sort_data := d, sort_notify := n\<rparr>)
        else Inl NullFunctionCall)
   \<and> playerctl_player_manager_set_sort_func (new_manager\<lparr>players := [1, 2]\<rparr>) None NULL NULL =
       Inl NullFunctionCall"
proof -
  obtain l where "g_list_sort_with_data (players m) (Some f) d = Inr l"
    using g_list_sort_with_data_Some by blast
  then have "\<exists>m'. playerctl_player_manager_set_sort_func m (Some f) d n = Inr m'"
    by (simp add: set_sort_func_eq)
  moreover have "playerctl_player_manager_get_property m PROP_PLAYERS =
      (Some (Players (players m)), m)"
    and "playerctl_player_manager_get_property m PROP_PLAYER_NAMES =
      (Some (PlayerNames (player_names m)), m)"
    by (simp_all add: playerctl_player_manager_get_property_def)
  moreover have "playerctl_player_manager_set_sort_func (new_manager\<lparr>players := [1, 2]\<rparr>) None NULL NULL =
       Inl NullFunctionCall"
    by (simp add: set_sort_func_NULL)
  ultimately show ?thesis
    using manage_player_returns [of m player] move_player_to_top_returns [of m player]
      set_sort_func_NULL [of m d n]
    by simp
qed

text \<open>
  C9.  A notification classified as vanished whose identifier is not in the name
  registry: the callback returns the state unchanged and emits nothing.  The player
  collection is not touched, even when it holds a player whose \<^verbatim>\<open>player-id\<close> is that
  identifier (which \<^verbatim>\<open>playerctl_player_manager_manage_player\<close> allows, as it never
  looks at the registry).
\<close>

theorem vanished_untracked_name:
  assumes "player_id \<noteq> []" and "previous_owner \<noteq> []"
    and "player_id \<notin> set (player_names m)"
  shows "dbus_name_owner_changed_callback P player_id_of m ''NameOwnerChanged''
           (GVTuple [GVString (P @ player_id), GVString previous_owner, GVString []]) = m"
proof -
  have "player_id_from_bus_name P (Some (P @ player_id)) = Some player_id"
    using assms(1) by (simp add: player_id_from_bus_name_Some_iff)
  with assms show ?thesis
    by (simp add: callback_notification)
qed

theorem vanished_untracked_name_witness:
  "\<exists>m. playerctl_player_manager_manage_player new_manager 2 = Inr m
     \<and> players m = [2] \<and> three_players 2 = Some ''vlc'' \<and> player_names m = []
     \<and> dbus_name_owner_changed_callback mpris_prefix three_players m ''NameOwnerChanged''
         (GVTuple [GVString (mpris_prefix @ ''vlc''), GVString '':1.7'', GVString []]) = m"
proof -
  define m where "m = new_manager\<lparr>players := [2],
    ref_count := (ref_count new_manager)(2 := 2),
    emitted := [(PLAYER_APPEARED 2, [], [2])]\<rparr>"
  have managed: "playerctl_player_manager_manage_player new_manager 2 = Inr m"
    by (simp add: manage_player_eq new_manager_def m_def)
  have names: "player_names m = []" and "players m = [2]"
    by (simp_all add: m_def new_manager_def)
  with managed
    vanished_untracked_name [of "''vlc''" "'':1.7''" m mpris_prefix three_players]
  show ?thesis
    by (intro exI [of _ m]) (simp add: three_players_def)
qed

text \<open>
  C10.  Initialization is idempotent: once the manager is initialized (\<open>initted\<close> is
  set, which only a successful initialization does), running the initialization
  routine again returns \<open>TRUE\<close>, reports no error and changes nothing of the state:
  neither the registry, nor the collection, nor the proxy, nor the connected handlers.
\<close>

theorem init_idempotent:
  "initted m \<Longrightarrow>
   playerctl_player_manager_initable_init proxy_new list_players m = (True, None, m)"
  by (simp add: playerctl_player_manager_initable_init_def)

theorem init_idempotent_witness:
  "\<exists>m. playerctl_player_manager_initable_init (7, None) ([''spotify''], None) new_manager
          = (True, None, m)
       \<and> initted m \<and> player_names m = [''spotify''] \<and> connected m = [7]
       \<and> playerctl_player_manager_initable_init (8, None) ([''vlc''], None) m = (True, None, m)"
proof -
  define m where "m = new_manager\<lparr>proxy := 7, player_names := [''spotify''],
    connected := [7], initted := True\<rparr>"
  have first: "playerctl_player_manager_initable_init (7, None) ([''spotify''], None) new_manager
      = (True, None, m)"
    by (simp add: playerctl_player_manager_initable_init_def new_manager_def m_def)
  have ready: "initted m"
    by (simp add: m_def)
  from init_idempotent [OF ready, of "(8, None)" "([''vlc''], None)"] first ready
  show ?thesis
    by (intro exI [of _ m]) (simp add: m_def)
qed

end
